theory Spec2Isabelle
  imports Main
begin

section \<open>The notebook cms-physics-coffea.ipynb\<close>

text \<open>
  The repository is one notebook of two code cells (a third cell is empty). Everything
  it does is a call into a library (the event reader, the lazy histogram, the
  scheduler), so the model keeps the notebook's own part exactly: the constants, the
  order of the calls, the data that flows from one call to the next, and where an
  exception leaves the script. What a library call does is not code of this repository;
  it is taken as a parameter, the record \<open>world\<close> below, and every theorem holds for
  every world.
\<close>

subsection \<open>Values the notebook builds\<close>

text \<open>A filter of Python's warnings module, as \<open>warnings.filterwarnings(action, module=...)\<close>
  installs it: the message, category and line number are left at their defaults, which
  match every warning.\<close>

datatype action = ActError | ActIgnore | ActAlways | ActDefault | ActModule | ActOnce

record wfilter =
  f_action :: action
  f_module :: string

record warning =
  w_category :: string
  w_module :: string
  w_message :: string

datatype exn = KeyError string | WarningError warning | LibraryError string

text \<open>\<open>DaskVine(name=...)\<close>, and the keyword arguments of \<open>compute\<close>.\<close>

datatype manager = DaskVine string

datatype argval = Scheduler manager | BoolVal bool

type_synonym kwargs = "(string \<times> argval) list"

text \<open>The dictionary \<open>{data_file: "/Events"}\<close>, whose key is the tuple \<open>(data_url,)\<close>,
  and the dictionary \<open>metadata\<close>.\<close>

type_synonym fileset = "(string list \<times> string) list"

type_synonym metadata = "(string \<times> string) list"

text \<open>Lazy arrays: \<open>from_root(...).events()\<close> and the fields read off it.\<close>

datatype lazy_array = NanoEvents fileset metadata | FieldOf lazy_array string

text \<open>\<open>Reg(bins, start, stop, name=..., label=...)\<close>.\<close>

record axis =
  ax_bins :: nat
  ax_start :: int
  ax_stop :: int
  ax_name :: string
  ax_label :: string

datatype storage = Double

text \<open>The lazy histogram \<open>q1_hist\<close>: its axes, its storage and the columns staged by
  \<open>fill\<close>. The histogram that \<open>compute\<close> returns has the same axes and storage, and the
  bin contents the executor delivered.\<close>

record lazy_hist =
  lh_axes :: "axis list"
  lh_storage :: "storage option"
  lh_fills :: "lazy_array list"

record 'v hist =
  h_axes :: "axis list"
  h_storage :: "storage option"
  h_values :: "'v list"

type_synonym columns = "(string \<times> string list) list"

subsection \<open>Library calls and the world\<close>

text \<open>The library calls of the notebook, each with the arguments it is given.
  \<open>Import m\<close> stands for the import statement that names the module \<open>m\<close>.\<close>

datatype 'v call =
    Import string
  | NewDaskVine string
  | NewClient
  | FromRoot fileset metadata
  | EventsOf fileset metadata
  | GetField lazy_array string
  | Reg axis
  | DoubleStorage lazy_hist
  | Fill lazy_hist lazy_array
  | Compute lazy_hist kwargs
  | Plot1d "'v hist"
  | NecessaryColumns lazy_hist

text \<open>
  The world: the process environment, \<open>os.path.abspath\<close>, Python's \<open>re.match\<close>, what the
  interpreter's own warning filters decide for a warning that no filter of the script
  matches, and for each library call the warnings it issues, the exception it raises (if
  any) and, for \<open>compute\<close> and \<open>necessary_columns\<close>, the value it returns.
\<close>

record 'v world =
  environ :: "string \<Rightarrow> string option"
  abspath :: "string \<Rightarrow> string"
  re_match :: "string \<Rightarrow> string \<Rightarrow> bool"
  default_action :: "warning \<Rightarrow> action"
  warns :: "'v call \<Rightarrow> warning list"
  raises :: "'v call \<Rightarrow> exn option"
  execute :: "lazy_hist \<Rightarrow> kwargs \<Rightarrow> 'v list"
  necessary :: "lazy_hist \<Rightarrow> columns"

subsection \<open>Running statements\<close>

text \<open>The state of a run: the warning filters the script has installed (newest first)
  and the library calls made so far.\<close>

record 'v state =
  filters :: "wfilter list"
  trace :: "'v call list"

type_synonym ('v, 'a) script = "'v state \<Rightarrow> (exn + 'a) \<times> 'v state"

definition ret :: "'a \<Rightarrow> ('v, 'a) script" where
  "ret x s = (Inr x, s)"

text \<open>Sequencing: an exception ends the run, since the notebook has no \<open>try\<close>.\<close>

definition andthen :: "('v, 'a) script \<Rightarrow> ('a \<Rightarrow> ('v, 'b) script) \<Rightarrow> ('v, 'b) script" where
  "andthen m k s = (case m s of (Inl e, s') \<Rightarrow> (Inl e, s') | (Inr x, s') \<Rightarrow> k x s')"

definition thn :: "('v, unit) script \<Rightarrow> ('v, 'b) script \<Rightarrow> ('v, 'b) script" where
  "thn m n = andthen m (\<lambda>_. n)"

text \<open>A filter matches a warning by its module: an empty pattern matches everything,
  any other pattern is matched with \<open>re.match\<close>.\<close>

definition filter_matches :: "'v world \<Rightarrow> wfilter \<Rightarrow> warning \<Rightarrow> bool" where
  "filter_matches w f wn = (f_module f = [] \<or> re_match w (f_module f) (w_module wn))"

text \<open>The first matching filter decides; with none, the interpreter's defaults do.\<close>

fun action_for :: "'v world \<Rightarrow> wfilter list \<Rightarrow> warning \<Rightarrow> action" where
  "action_for w [] wn = default_action w wn"
| "action_for w (f # fs) wn = (if filter_matches w f wn then f_action f else action_for w fs wn)"

fun first_error :: "'v world \<Rightarrow> wfilter list \<Rightarrow> warning list \<Rightarrow> warning option" where
  "first_error w fs [] = None"
| "first_error w fs (wn # wns) =
     (if action_for w fs wn = ActError then Some wn else first_error w fs wns)"

text \<open>The exception a library call ends in, if any: its warnings go through the
  filters in the order they are issued, and the first one with action error is raised in
  place of the warning (the call is left there); otherwise the call may raise by itself.
  The libraries are taken not to catch the raised warning and not to change the filters:
  \<open>warns\<close> lists the warnings that reach the filters as the script left them.\<close>

definition call_result :: "'v world \<Rightarrow> wfilter list \<Rightarrow> 'v call \<Rightarrow> exn option" where
  "call_result w fs c =
     (case first_error w fs (warns w c) of
        Some wn \<Rightarrow> Some (WarningError wn)
      | None \<Rightarrow> raises w c)"

text \<open>A library call is recorded in the trace, then returns or raises.\<close>

definition ext :: "'v world \<Rightarrow> 'v call \<Rightarrow> ('v, unit) script" where
  "ext w c s =
     (let s' = s\<lparr>trace := trace s @ [c]\<rparr> in
      case call_result w (filters s) c of
        Some e \<Rightarrow> (Inl e, s')
      | None \<Rightarrow> (Inr (), s'))"

text \<open>\<open>warnings.filterwarnings(action, module=m)\<close> puts the filter in front.\<close>

definition filterwarnings :: "action \<Rightarrow> string \<Rightarrow> ('v, unit) script" where
  "filterwarnings a m s = (Inr (), s\<lparr>filters := \<lparr>f_action = a, f_module = m\<rparr> # filters s\<rparr>)"

text \<open>\<open>os.environ[k]\<close> raises \<open>KeyError\<close> on a variable that is not set.\<close>

definition environ_get :: "'v world \<Rightarrow> string \<Rightarrow> ('v, string) script" where
  "environ_get w k s = (case environ w k of None \<Rightarrow> (Inl (KeyError k), s) | Some v \<Rightarrow> (Inr v, s))"

subsection \<open>The first cell\<close>

definition use_taskvine :: bool where
  "use_taskvine = True"

text \<open>Lines 10 to 17: the imports.\<close>

definition import_lines :: "'v world \<Rightarrow> ('v, unit) script" where
  "import_lines w =
     thn (ext w (Import ''os''))
    (thn (ext w (Import ''coffea.nanoevents''))
    (thn (ext w (Import ''coffea''))
    (thn (ext w (Import ''dask_awkward''))
    (thn (ext w (Import ''hist.dask''))
         (ext w (Import ''warnings''))))))"

text \<open>Lines 23 to 38: the backend and the keyword arguments of \<open>compute\<close>.\<close>

definition select_backend :: "bool \<Rightarrow> 'v world \<Rightarrow> ('v, kwargs) script" where
  "select_backend flag w =
     (if flag then
        thn (ext w (Import ''ndcctools.taskvine''))
       (andthen (environ_get w ''USER'') (\<lambda>user.
        let session = user @ ''-coffea-example-4'' in
        thn (ext w (NewDaskVine session))
       (ret [(''scheduler'', Scheduler (DaskVine session)), (''worker_transfers'', BoolVal True)])))
      else
        thn (ext w (Import ''distributed''))
       (thn (ext w NewClient)
       (ret [])))"

definition cell1 :: "bool \<Rightarrow> 'v world \<Rightarrow> ('v, kwargs) script" where
  "cell1 flag w =
     thn (import_lines w)
    (thn (filterwarnings ActError ''coffea.*'')
         (select_backend flag w))"

subsection \<open>The second cell\<close>

definition data_url :: "'v world \<Rightarrow> string" where
  "data_url w = ''file://'' @ abspath w ''data/small_data.root''"

definition data_file :: "'v world \<Rightarrow> string list" where
  "data_file w = [data_url w]"

text \<open>Lines 54 to 56.\<close>

definition load_events :: "'v world \<Rightarrow> ('v, lazy_array) script" where
  "load_events w =
     (let files = [(data_file w, ''/Events'')]; meta = [(''dataset'', ''SingleMu'')] in
      thn (ext w (FromRoot files meta))
     (thn (ext w (EventsOf files meta))
          (ret (NanoEvents files meta))))"

definition met_axis :: axis where
  "met_axis = \<lparr>ax_bins = 100, ax_start = 0, ax_stop = 200, ax_name = ''met'',
                ax_label = ''$E_{T}^{miss}$ [GeV]''\<rparr>"

text \<open>Lines 58 to 62. Python evaluates \<open>Reg(...).Double()\<close> first, then the argument
  \<open>events.MET.pt\<close>, then calls \<open>fill\<close>.\<close>

definition build_hist :: "'v world \<Rightarrow> lazy_array \<Rightarrow> ('v, lazy_hist) script" where
  "build_hist w events =
     (let h0 = \<lparr>lh_axes = [met_axis], lh_storage = None, lh_fills = []\<rparr>;
          h1 = h0\<lparr>lh_storage := Some Double\<rparr>;
          met = FieldOf events ''MET'';
          pt = FieldOf met ''pt'';
          q1 = h1\<lparr>lh_fills := lh_fills h1 @ [pt]\<rparr> in
      thn (ext w (Reg met_axis))
     (thn (ext w (DoubleStorage h0))
     (thn (ext w (GetField events ''MET''))
     (thn (ext w (GetField met ''pt''))
     (thn (ext w (Fill h1 pt))
          (ret q1))))))"

text \<open>Lines 64 and 66. What \<open>compute\<close> returns is the lazy histogram's axes and
  storage with the bin contents that the executor delivers for it.\<close>

definition materialize :: "'v world \<Rightarrow> lazy_hist \<Rightarrow> kwargs \<Rightarrow> 'v hist" where
  "materialize w q args =
     \<lparr>h_axes = lh_axes q, h_storage = lh_storage q, h_values = execute w q args\<rparr>"

definition compute_and_plot ::
  "'v world \<Rightarrow> kwargs \<Rightarrow> lazy_hist \<Rightarrow> ('v, 'v hist \<times> columns) script" where
  "compute_and_plot w executor_args q1_hist =
     thn (ext w (Compute q1_hist executor_args))
    (let h = materialize w q1_hist executor_args in
     thn (ext w (Plot1d h))
    (thn (ext w (NecessaryColumns q1_hist))
         (ret (h, necessary w q1_hist))))"

definition cell2 :: "'v world \<Rightarrow> kwargs \<Rightarrow> ('v, 'v hist \<times> columns) script" where
  "cell2 w executor_args =
     andthen (load_events w) (\<lambda>events.
     andthen (build_hist w events) (\<lambda>q1_hist.
     compute_and_plot w executor_args q1_hist))"

subsection \<open>The notebook\<close>

definition notebook :: "bool \<Rightarrow> 'v world \<Rightarrow> ('v, 'v hist \<times> columns) script" where
  "notebook flag w = andthen (cell1 flag w) (cell2 w)"

definition start_state :: "'v state" where
  "start_state = \<lparr>filters = [], trace = []\<rparr>"

definition run :: "bool \<Rightarrow> 'v world \<Rightarrow> (exn + 'v hist \<times> columns) \<times> 'v state" where
  "run flag w = notebook flag w start_state"

definition outcome :: "bool \<Rightarrow> 'v world \<Rightarrow> exn + 'v hist \<times> columns" where
  "outcome flag w = fst (run flag w)"

definition calls :: "bool \<Rightarrow> 'v world \<Rightarrow> 'v call list" where
  "calls flag w = trace (snd (run flag w))"

subsection \<open>Runs that end where a call fails\<close>

text \<open>
  With the filters left alone, a piece of the script is orderly when the calls it adds to
  the trace all return, except possibly the last one: a call that ends in an exception is
  the last call of the run, and its exception is the outcome.
\<close>

definition orderly :: "'v world \<Rightarrow> ('v, 'a) script \<Rightarrow> bool" where
  "orderly w m = (\<forall>s r s'. m s = (r, s') \<longrightarrow>
     filters s' = filters s \<and>
     (\<exists>new. trace s' = trace s @ new \<and>
        (\<forall>c\<in>set new. \<forall>e. call_result w (filters s) c = Some e \<longrightarrow>
           last new = c \<and> r = Inl e)))"

text \<open>The imports made before the filter is installed, and the filter of line 18.\<close>

definition early_imports :: "'v call list" where
  "early_imports =
     map Import [''os'', ''coffea.nanoevents'', ''coffea'', ''dask_awkward'', ''hist.dask'', ''warnings'']"

definition coffea_filter :: wfilter where
  "coffea_filter = \<lparr>f_action = ActError, f_module = ''coffea.*''\<rparr>"

subsection \<open>The calls of a run in which nothing fails\<close>

text \<open>
  The arguments of every call are fixed by the script and the world, so the calls of a
  run that nothing interrupts can be listed in advance. A piece of the script follows
  such a list when the calls it makes are an initial segment of the list, and the whole
  list when it returns; the value it returns, if it can return at all, is fixed too.
\<close>

definition follows :: "('v, 'a) script \<Rightarrow> 'v call list \<Rightarrow> 'a option \<Rightarrow> bool" where
  "follows m xs vo = (\<forall>s r s'. m s = (r, s') \<longrightarrow>
     (\<exists>new rest. trace s' = trace s @ new \<and> xs = new @ rest \<and>
        (\<forall>x. r = Inr x \<longrightarrow> vo = Some x \<and> rest = [])))"

definition input_files :: "'v world \<Rightarrow> fileset" where
  "input_files w = [(data_file w, ''/Events'')]"

definition input_meta :: metadata where
  "input_meta = [(''dataset'', ''SingleMu'')]"

definition events_val :: "'v world \<Rightarrow> lazy_array" where
  "events_val w = NanoEvents (input_files w) input_meta"

definition met_pt :: "'v world \<Rightarrow> lazy_array" where
  "met_pt w = FieldOf (FieldOf (events_val w) ''MET'') ''pt''"

definition hist0 :: lazy_hist where
  "hist0 = \<lparr>lh_axes = [met_axis], lh_storage = None, lh_fills = []\<rparr>"

definition hist1 :: lazy_hist where
  "hist1 = \<lparr>lh_axes = [met_axis], lh_storage = Some Double, lh_fills = []\<rparr>"

definition q1_val :: "'v world \<Rightarrow> lazy_hist" where
  "q1_val w = \<lparr>lh_axes = [met_axis], lh_storage = Some Double, lh_fills = [met_pt w]\<rparr>"

definition load_plan :: "'v world \<Rightarrow> 'v call list" where
  "load_plan w = [FromRoot (input_files w) input_meta, EventsOf (input_files w) input_meta]"

definition build_plan :: "'v world \<Rightarrow> 'v call list" where
  "build_plan w =
     [Reg met_axis, DoubleStorage hist0, GetField (events_val w) ''MET'',
      GetField (FieldOf (events_val w) ''MET'') ''pt'', Fill hist1 (met_pt w)]"

definition finish_plan :: "'v world \<Rightarrow> kwargs \<Rightarrow> 'v call list" where
  "finish_plan w args =
     [Compute (q1_val w) args, Plot1d (materialize w (q1_val w) args), NecessaryColumns (q1_val w)]"

definition cell2_plan :: "'v world \<Rightarrow> kwargs \<Rightarrow> 'v call list" where
  "cell2_plan w args = load_plan w @ build_plan w @ finish_plan w args"

definition session_name :: "string \<Rightarrow> string" where
  "session_name user = user @ ''-coffea-example-4''"

definition vine_args :: "string \<Rightarrow> kwargs" where
  "vine_args user =
     [(''scheduler'', Scheduler (DaskVine (session_name user))), (''worker_transfers'', BoolVal True)]"

definition backend_plan :: "bool \<Rightarrow> 'v world \<Rightarrow> 'v call list" where
  "backend_plan flag w =
     (if flag then
        Import ''ndcctools.taskvine'' #
        (case environ w ''USER'' of None \<Rightarrow> [] | Some user \<Rightarrow> [NewDaskVine (session_name user)])
      else [Import ''distributed'', NewClient])"

definition backend_args :: "bool \<Rightarrow> 'v world \<Rightarrow> kwargs option" where
  "backend_args flag w =
     (if flag then map_option vine_args (environ w ''USER'') else Some [])"

definition plan :: "bool \<Rightarrow> 'v world \<Rightarrow> 'v call list" where
  "plan flag w =
     early_imports @ backend_plan flag w @
     (case backend_args flag w of None \<Rightarrow> [] | Some args \<Rightarrow> cell2_plan w args)"

definition planned_result :: "bool \<Rightarrow> 'v world \<Rightarrow> ('v hist \<times> columns) option" where
  "planned_result flag w =
     map_option (\<lambda>args. (materialize w (q1_val w) args, necessary w (q1_val w))) (backend_args flag w)"

subsection \<open>Concrete worlds\<close>

text \<open>A world in which every library call returns and none warns: user alice, the
  notebook in her home directory, a file of no events.\<close>

definition quiet_world :: "nat world" where
  "quiet_world =
     \<lparr>environ = [''USER'' \<mapsto> ''alice''],
      abspath = (\<lambda>p. ''/home/alice/'' @ p),
      re_match = (\<lambda>pat s. pat = ''coffea.*'' \<and> take 6 s = ''coffea''),
      default_action = (\<lambda>_. ActDefault),
      warns = (\<lambda>_. []),
      raises = (\<lambda>_. None),
      execute = (\<lambda>_ _. replicate 102 0),
      necessary = (\<lambda>_. [(''from-uproot'', [''MET_pt''])])\<rparr>"

text \<open>The same world with \<open>USER\<close> not set.\<close>

definition no_user_world :: "nat world" where
  "no_user_world = quiet_world\<lparr>environ := Map.empty\<rparr>"

text \<open>The same world with the data file missing: the reader refuses to open it.\<close>

definition absent_file_world :: "nat world" where
  "absent_file_world =
     quiet_world\<lparr>raises := (\<lambda>c. case c of
        FromRoot fs md \<Rightarrow> Some (LibraryError ''FileNotFoundError'')
      | _ \<Rightarrow> None)\<rparr>"

text \<open>The same world with a reader that opens the file only when the histogram is
  computed: it is \<open>compute\<close> that fails.\<close>

definition lazy_absent_file_world :: "nat world" where
  "lazy_absent_file_world =
     quiet_world\<lparr>raises := (\<lambda>c. case c of
        Compute q a \<Rightarrow> Some (LibraryError ''FileNotFoundError'')
      | _ \<Rightarrow> None)\<rparr>"

text \<open>A warning of the event-reading library, issued while it is imported (line 11) or
  while it opens the file (line 54).\<close>

definition coffea_warning :: warning where
  "coffea_warning =
     \<lparr>w_category = ''FutureWarning'', w_module = ''coffea.nanoevents'',
      w_message = ''deprecated''\<rparr>"

definition import_warning_world :: "nat world" where
  "import_warning_world =
     quiet_world\<lparr>warns := (\<lambda>c. if c = Import ''coffea.nanoevents'' then [coffea_warning] else [])\<rparr>"

text \<open>The world of the import-time warning, with \<open>USER\<close> not set.\<close>

definition import_warning_no_user_world :: "nat world" where
  "import_warning_no_user_world = import_warning_world\<lparr>environ := Map.empty\<rparr>"

definition reader_warning_world :: "nat world" where
  "reader_warning_world =
     quiet_world\<lparr>warns := (\<lambda>c. case c of FromRoot fs md \<Rightarrow> [coffea_warning] | _ \<Rightarrow> [])\<rparr>"

section \<open>How a run proceeds\<close>

lemmas run_defs = calls_def outcome_def run_def notebook_def cell1_def cell2_def import_lines_def
  select_backend_def load_events_def build_hist_def compute_and_plot_def start_state_def
  andthen_def thn_def ret_def ext_def filterwarnings_def environ_get_def call_result_def
  filter_matches_def Let_def

lemmas world_defs = quiet_world_def no_user_world_def absent_file_world_def lazy_absent_file_world_def
  import_warning_world_def import_warning_no_user_world_def reader_warning_world_def
  coffea_warning_def

lemmas value_defs = input_files_def input_meta_def data_file_def data_url_def events_val_def
  met_pt_def hist0_def hist1_def q1_val_def session_name_def vine_args_def materialize_def

lemmas plan_defs = plan_def early_imports_def backend_plan_def backend_args_def cell2_plan_def
  load_plan_def build_plan_def finish_plan_def

subsection \<open>Warnings\<close>

lemma first_error_Some: "first_error w fs wns = Some x \<Longrightarrow> x \<in> set wns \<and> action_for w fs x = ActError"
  by (induction wns) (auto split: if_splits)

lemma first_error_None: "first_error w fs wns = None \<Longrightarrow> wn \<in> set wns \<Longrightarrow> action_for w fs wn \<noteq> ActError"
  by (induction wns) (auto split: if_splits)

lemma matching_escalates:
  assumes "wn \<in> set (warns w c)" and "re_match w ''coffea.*'' (w_module wn)"
  shows "\<exists>x. x \<in> set (warns w c) \<and> call_result w (coffea_filter # fs) c = Some (WarningError x)"
proof (cases "first_error w (coffea_filter # fs) (warns w c)")
  case None
  from first_error_None [OF None assms(1)] assms(2) show ?thesis
    by (simp add: filter_matches_def coffea_filter_def)
next
  case (Some x)
  with first_error_Some [OF Some] show ?thesis by (auto simp add: call_result_def)
qed

lemma raises_call_result: "raises w c = Some e \<Longrightarrow> \<exists>e'. call_result w fs c = Some e'"
  by (simp add: call_result_def split: option.splits)

lemma ext_returns_under:
  "call_result w (filters s) c = None \<Longrightarrow> ext w c s = (Inr (), s\<lparr>trace := trace s @ [c]\<rparr>)"
  by (simp add: ext_def)

subsection \<open>A failing call ends the run\<close>

text \<open>Every piece of the script is orderly: the primitives are, and sequencing keeps it.\<close>

lemma orderlyD:
  assumes "orderly w m" and "m s = (r, s')"
  shows "filters s' = filters s \<and>
     (\<exists>new. trace s' = trace s @ new \<and>
        (\<forall>c\<in>set new. \<forall>e. call_result w (filters s) c = Some e \<longrightarrow> last new = c \<and> r = Inl e))"
  by (rule assms(1) [unfolded orderly_def, rule_format, OF assms(2)])

lemma orderly_ret: "orderly w (ret x)"
  by (simp add: orderly_def ret_def)

lemma orderly_environ_get: "orderly w (environ_get w k)"
  by (auto simp add: orderly_def environ_get_def split: option.splits)

lemma orderly_ext: "orderly w (ext w c)"
  by (auto simp add: orderly_def ext_def Let_def split: option.splits)

lemma orderly_andthen:
  assumes m: "orderly w m" and k: "\<And>x. orderly w (k x)"
  shows "orderly w (andthen m k)"
  unfolding orderly_def
proof (intro allI impI)
  fix s r s'
  assume run: "andthen m k s = (r, s')"
  obtain r1 s1 where ms: "m s = (r1, s1)" by (cases "m s")
  from m ms obtain new1 where f1: "filters s1 = filters s" and t1: "trace s1 = trace s @ new1"
    and e1: "\<forall>c\<in>set new1. \<forall>e. call_result w (filters s) c = Some e \<longrightarrow> last new1 = c \<and> r1 = Inl e"
    unfolding orderly_def by blast
  show "filters s' = filters s \<and>
     (\<exists>new. trace s' = trace s @ new \<and>
        (\<forall>c\<in>set new. \<forall>e. call_result w (filters s) c = Some e \<longrightarrow> last new = c \<and> r = Inl e))"
  proof (cases r1)
    case (Inl e)
    with run ms have "r = Inl e" "s' = s1" by (simp_all add: andthen_def)
    with f1 t1 e1 Inl show ?thesis by auto
  next
    case (Inr x)
    with run ms have kx: "k x s1 = (r, s')" by (simp add: andthen_def)
    from k [of x] kx obtain new2 where f2: "filters s' = filters s1" and t2: "trace s' = trace s1 @ new2"
      and e2: "\<forall>c\<in>set new2. \<forall>e. call_result w (filters s1) c = Some e \<longrightarrow> last new2 = c \<and> r = Inl e"
      unfolding orderly_def by blast
    have none1: "\<And>c e. c \<in> set new1 \<Longrightarrow> call_result w (filters s) c \<noteq> Some e"
      using e1 Inr by auto
    have "\<forall>c\<in>set (new1 @ new2). \<forall>e. call_result w (filters s) c = Some e \<longrightarrow>
            last (new1 @ new2) = c \<and> r = Inl e"
    proof (intro ballI allI impI)
      fix c e
      assume c: "c \<in> set (new1 @ new2)" and ce: "call_result w (filters s) c = Some e"
      with none1 have c2: "c \<in> set new2" by auto
      then have "new2 \<noteq> []" by auto
      with e2 c2 ce f1 show "last (new1 @ new2) = c \<and> r = Inl e" by simp
    qed
    with f1 f2 t1 t2 show ?thesis by (intro conjI exI [of _ "new1 @ new2"]) simp_all
  qed
qed

lemma orderly_thn: "orderly w m \<Longrightarrow> orderly w n \<Longrightarrow> orderly w (thn m n)"
  unfolding thn_def by (rule orderly_andthen)

lemmas orderly_intros = orderly_ret orderly_environ_get orderly_ext orderly_andthen orderly_thn

lemma orderly_select_backend: "orderly w (select_backend flag w)"
  unfolding select_backend_def Let_def by (cases flag) (simp_all add: orderly_intros)

lemma orderly_cell2: "orderly w (cell2 w args)"
  unfolding cell2_def load_events_def build_hist_def compute_and_plot_def Let_def
  by (intro orderly_intros)

lemma orderly_import_lines: "orderly w (import_lines w)"
  unfolding import_lines_def by (intro orderly_intros)

lemma orderly_backend_cell2: "orderly w (andthen (select_backend flag w) (cell2 w))"
  by (intro orderly_andthen orderly_select_backend orderly_cell2)

lemma import_lines_trace:
  "set (trace (snd (import_lines w s))) \<subseteq> set (trace s) \<union> set early_imports"
  by (auto simp add: import_lines_def early_imports_def thn_def andthen_def ext_def Let_def
      split: option.splits)

text \<open>The run splits at line 18: the imports run under the interpreter's own filters,
  everything after them with the filter of the script in front.\<close>

lemma run_split:
  "run flag w =
     (case import_lines w start_state of
        (Inl e, s1) \<Rightarrow> (Inl e, s1)
      | (Inr u, s1) \<Rightarrow>
          andthen (select_backend flag w) (cell2 w) (s1\<lparr>filters := coffea_filter # filters s1\<rparr>))"
  by (simp add: run_def notebook_def cell1_def andthen_def thn_def filterwarnings_def coffea_filter_def
      split: prod.splits sum.splits)

subsection \<open>Every run is an initial segment of the plan\<close>

lemma followsD:
  assumes "follows m xs vo" and "m s = (r, s')"
  shows "\<exists>new rest. trace s' = trace s @ new \<and> xs = new @ rest \<and>
           (\<forall>x. r = Inr x \<longrightarrow> vo = Some x \<and> rest = [])"
  by (rule assms(1) [unfolded follows_def, rule_format, OF assms(2)])

lemma follows_ret: "follows (ret x) [] (Some x)"
  by (simp add: follows_def ret_def)

lemma follows_ext: "follows (ext w c) [c] (Some ())"
  by (auto simp add: follows_def ext_def Let_def split: option.splits)

lemma follows_filterwarnings: "follows (filterwarnings a m) [] (Some ())"
  by (simp add: follows_def filterwarnings_def)

lemma follows_environ_get: "follows (environ_get w k) [] (environ w k)"
  by (auto simp add: follows_def environ_get_def split: option.splits)

lemma follows_andthen:
  assumes m: "follows m xs (Some v)" and k: "follows (k v) ys vo"
  shows "follows (andthen m k) (xs @ ys) vo"
  unfolding follows_def
proof (intro allI impI)
  fix s r s'
  assume run: "andthen m k s = (r, s')"
  obtain r1 s1 where ms: "m s = (r1, s1)" by (cases "m s")
  from followsD [OF m ms] obtain new1 rest1 where t1: "trace s1 = trace s @ new1"
    and x1: "xs = new1 @ rest1"
    and v1: "\<forall>x. r1 = Inr x \<longrightarrow> Some v = Some x \<and> rest1 = []"
    by (elim exE conjE)
  show "\<exists>new rest. trace s' = trace s @ new \<and> xs @ ys = new @ rest \<and>
          (\<forall>x. r = Inr x \<longrightarrow> vo = Some x \<and> rest = [])"
  proof (cases r1)
    case (Inl e)
    with run ms have "r = Inl e" "s' = s1" by (simp_all add: andthen_def)
    with t1 x1 show ?thesis by (intro exI [of _ new1] exI [of _ "rest1 @ ys"]) simp
  next
    case (Inr x)
    with v1 have xv: "x = v" and r1: "rest1 = []" by simp_all
    from run ms Inr xv have kv: "k v s1 = (r, s')" by (simp add: andthen_def)
    from followsD [OF k kv] obtain new2 rest2 where t2: "trace s' = trace s1 @ new2"
      and x2: "ys = new2 @ rest2"
      and v2: "\<forall>x. r = Inr x \<longrightarrow> vo = Some x \<and> rest2 = []"
      by (elim exE conjE)
    from t1 t2 x1 x2 r1 v2 show ?thesis
      by (intro exI [of _ "new1 @ new2"] exI [of _ rest2]) simp
  qed
qed

lemma follows_andthen_None:
  assumes m: "follows m xs None"
  shows "follows (andthen m k) xs None"
  unfolding follows_def
proof (intro allI impI)
  fix s r s'
  assume run: "andthen m k s = (r, s')"
  obtain r1 s1 where ms: "m s = (r1, s1)" by (cases "m s")
  from followsD [OF m ms] obtain new1 rest1 where t1: "trace s1 = trace s @ new1"
    and x1: "xs = new1 @ rest1" and v1: "\<forall>x. r1 \<noteq> Inr x"
    by auto
  then obtain e where "r1 = Inl e" by (cases r1) auto
  with run ms have "r = Inl e" "s' = s1" by (simp_all add: andthen_def)
  with t1 x1 show "\<exists>new rest. trace s' = trace s @ new \<and> xs = new @ rest \<and>
          (\<forall>x. r = Inr x \<longrightarrow> None = Some x \<and> rest = [])"
    by auto
qed

lemma follows_thn:
  "follows m xs (Some ()) \<Longrightarrow> follows n ys vo \<Longrightarrow> follows (thn m n) (xs @ ys) vo"
  unfolding thn_def by (rule follows_andthen)

lemma follows_call: "follows n ys vo \<Longrightarrow> follows (thn (ext w c) n) (c # ys) vo"
  using follows_thn [OF follows_ext, of n ys vo w c] by simp

lemma follows_import_lines: "follows (import_lines w) early_imports (Some ())"
  unfolding import_lines_def early_imports_def list.map
  by (intro follows_call follows_ext)

lemma follows_load_events: "follows (load_events w) (load_plan w) (Some (events_val w))"
  unfolding load_events_def load_plan_def events_val_def input_files_def input_meta_def Let_def
  by (intro follows_call follows_ret)

lemma follows_build_hist: "follows (build_hist w (events_val w)) (build_plan w) (Some (q1_val w))"
proof -
  have "follows (build_hist w (events_val w))
     [Reg met_axis, DoubleStorage hist0, GetField (events_val w) ''MET'',
      GetField (FieldOf (events_val w) ''MET'') ''pt'', Fill hist1 (met_pt w)] (Some (q1_val w))"
    unfolding build_hist_def Let_def hist0_def hist1_def met_pt_def q1_val_def
    by simp (intro follows_call follows_ret)
  then show ?thesis by (simp add: build_plan_def)
qed

lemma follows_compute_and_plot:
  "follows (compute_and_plot w args (q1_val w)) (finish_plan w args)
     (Some (materialize w (q1_val w) args, necessary w (q1_val w)))"
  unfolding compute_and_plot_def finish_plan_def Let_def
  by (intro follows_call follows_ret)

lemma follows_cell2:
  "follows (cell2 w args) (cell2_plan w args) (Some (materialize w (q1_val w) args, necessary w (q1_val w)))"
proof -
  have "follows (andthen (build_hist w (events_val w)) (compute_and_plot w args))
          (build_plan w @ finish_plan w args)
          (Some (materialize w (q1_val w) args, necessary w (q1_val w)))"
    using follows_build_hist follows_compute_and_plot
    by (rule follows_andthen [where k = "compute_and_plot w args"])
  with follows_load_events show ?thesis
    unfolding cell2_def cell2_plan_def
    by (rule follows_andthen [where k = "\<lambda>events. andthen (build_hist w events) (compute_and_plot w args)"])
qed

lemma follows_select_backend: "follows (select_backend flag w) (backend_plan flag w) (backend_args flag w)"
proof (cases flag)
  case False
  then show ?thesis
    unfolding select_backend_def backend_plan_def backend_args_def
    by simp (intro follows_call follows_ret)
next
  case True
  show ?thesis
  proof (cases "environ w ''USER''")
    case None
    have "follows (andthen (environ_get w ''USER'') (\<lambda>user.
        let session = user @ ''-coffea-example-4'' in
        thn (ext w (NewDaskVine session))
       (ret [(''scheduler'', Scheduler (DaskVine session)), (''worker_transfers'', BoolVal True)]))) [] None"
      using follows_environ_get [of w "''USER''"] None by (intro follows_andthen_None) simp
    then show ?thesis
      unfolding select_backend_def backend_plan_def backend_args_def using True None
      by (simp add: follows_call)
  next
    case (Some u)
    have e: "follows (environ_get w ''USER'') [] (Some u)"
      using follows_environ_get [of w "''USER''"] Some by simp
    have "follows (thn (ext w (NewDaskVine (session_name u))) (ret (vine_args u)))
       [NewDaskVine (session_name u)] (Some (vine_args u))"
      by (intro follows_call follows_ret)
    then have "follows (andthen (environ_get w ''USER'') (\<lambda>user.
        let session = user @ ''-coffea-example-4'' in
        thn (ext w (NewDaskVine session))
       (ret [(''scheduler'', Scheduler (DaskVine session)), (''worker_transfers'', BoolVal True)])))
       ([] @ [NewDaskVine (session_name u)]) (Some (vine_args u))"
      by (intro follows_andthen [OF e]) (simp add: Let_def session_name_def vine_args_def)
    then show ?thesis
      unfolding select_backend_def backend_plan_def backend_args_def using True Some
      by (simp add: follows_call)
  qed
qed

lemma follows_cell1:
  "follows (cell1 flag w) (early_imports @ backend_plan flag w) (backend_args flag w)"
proof -
  have "follows (thn (filterwarnings ActError ''coffea.*'') (select_backend flag w))
          ([] @ backend_plan flag w) (backend_args flag w)"
    by (intro follows_thn follows_filterwarnings follows_select_backend)
  then show ?thesis
    unfolding cell1_def by (intro follows_thn follows_import_lines) simp
qed

lemma follows_notebook: "follows (notebook flag w) (plan flag w) (planned_result flag w)"
proof (cases "backend_args flag w")
  case None
  with follows_cell1 [of flag w] have "follows (cell1 flag w) (early_imports @ backend_plan flag w) None"
    by simp
  then have "follows (andthen (cell1 flag w) (cell2 w)) (early_imports @ backend_plan flag w) None"
    by (rule follows_andthen_None)
  with None show ?thesis by (simp add: notebook_def plan_def planned_result_def)
next
  case (Some args)
  with follows_cell1 [of flag w]
  have "follows (cell1 flag w) (early_imports @ backend_plan flag w) (Some args)" by simp
  from follows_andthen [where k = "cell2 w", OF this follows_cell2 [of w args]] Some
  show ?thesis by (simp add: notebook_def plan_def planned_result_def)
qed

lemma run_follows_plan:
  obtains rest where "plan flag w = calls flag w @ rest"
    and "\<And>x. outcome flag w = Inr x \<Longrightarrow> planned_result flag w = Some x \<and> rest = []"
proof -
  obtain r s' where rs: "notebook flag w start_state = (r, s')"
    by (cases "notebook flag w start_state")
  from followsD [OF follows_notebook rs] obtain new rest where
    "trace s' = trace start_state @ new" "plan flag w = new @ rest"
    "\<forall>x. r = Inr x \<longrightarrow> planned_result flag w = Some x \<and> rest = []"
    by (elim exE conjE)
  with rs have "plan flag w = calls flag w @ rest"
    and "\<And>x. outcome flag w = Inr x \<Longrightarrow> planned_result flag w = Some x \<and> rest = []"
    by (auto simp add: calls_def outcome_def run_def start_state_def)
  then show ?thesis by (rule that)
qed

subsection \<open>Consequences for a whole run\<close>

lemma calls_in_plan: "c \<in> set (calls flag w) \<Longrightarrow> c \<in> set (plan flag w)"
  by (rule run_follows_plan [of flag w]) auto

lemma success_runs_plan:
  assumes "outcome flag w = Inr x"
  shows "calls flag w = plan flag w \<and> planned_result flag w = Some x"
  by (rule run_follows_plan [of flag w]) (use assms in auto)

lemma distinct_cell2_plan: "distinct (cell2_plan w args)"
  by (simp add: cell2_plan_def load_plan_def build_plan_def finish_plan_def events_val_def met_pt_def)

lemma distinct_plan: "distinct (plan flag w)"
  by (auto simp add: plan_defs distinct_cell2_plan [unfolded cell2_plan_def load_plan_def build_plan_def finish_plan_def]
      split: option.splits)

lemma plan_with_args:
  assumes "backend_args flag w = Some args"
  shows "plan flag w =
     (early_imports @ backend_plan flag w) @
       FromRoot [(data_file w, ''/Events'')] [(''dataset'', ''SingleMu'')] #
       (EventsOf [(data_file w, ''/Events'')] [(''dataset'', ''SingleMu'')] #
        build_plan w @ finish_plan w args)"
    and "plan flag w =
     (early_imports @ backend_plan flag w @
       [FromRoot [(data_file w, ''/Events'')] [(''dataset'', ''SingleMu'')]]) @
       EventsOf [(data_file w, ''/Events'')] [(''dataset'', ''SingleMu'')] #
       (build_plan w @ finish_plan w args)"
    and "plan flag w =
     (early_imports @ backend_plan flag w @ load_plan w @ build_plan w) @
       Compute (q1_val w) args #
       [Plot1d (materialize w (q1_val w) args), NecessaryColumns (q1_val w)]"
  using assms
  by (simp_all add: plan_def cell2_plan_def load_plan_def finish_plan_def input_files_def
      input_meta_def)

lemma hist_calls_in_build:
  assumes c: "c \<in> set (plan flag w)"
    and kind: "(\<exists>ax. c = Reg ax) \<or> (\<exists>q a. c = Compute q a) \<or> (\<exists>h. c = Plot1d h)"
  shows "\<exists>args. backend_args flag w = Some args \<and> c \<in> set (build_plan w @ finish_plan w args)"
proof -
  have early: "c \<notin> set early_imports" "c \<notin> set (backend_plan flag w)" "c \<notin> set (load_plan w)"
    using kind
    by (auto simp add: early_imports_def backend_plan_def load_plan_def split: option.splits if_splits)
  show ?thesis
  proof (cases "backend_args flag w")
    case None
    with c early show ?thesis by (simp add: plan_def)
  next
    case (Some args)
    with c early show ?thesis by (simp add: plan_def cell2_plan_def)
  qed
qed

text \<open>A call that raises is the last call of the run, and no call planned after it is
  made.\<close>

lemma raising_call_ends_run:
  assumes c: "c \<in> set (calls flag w)" and e: "raises w c = Some e"
  shows "(\<exists>e'. outcome flag w = Inl e') \<and> last (calls flag w) = c"
proof -
  obtain r1 s1 where i: "import_lines w start_state = (r1, s1)" by (cases "import_lines w start_state")
  have f1: "filters s1 = []" and
    en1: "\<forall>c\<in>set (trace s1). \<forall>e. call_result w [] c = Some e \<longrightarrow> last (trace s1) = c \<and> r1 = Inl e"
    using orderlyD [OF orderly_import_lines i] by (simp_all add: start_state_def)
  show ?thesis
  proof (cases r1)
    case (Inl e1)
    with i have run: "run flag w = (Inl e1, s1)" by (simp add: run_split)
    with c have "c \<in> set (trace s1)" by (simp add: calls_def)
    with en1 raises_call_result [OF e] have "last (trace s1) = c" by blast
    with run show ?thesis by (simp add: calls_def outcome_def)
  next
    case (Inr u)
    let ?s = "s1\<lparr>filters := coffea_filter # filters s1\<rparr>"
    obtain r s' where rest: "andthen (select_backend flag w) (cell2 w) ?s = (r, s')"
      by (cases "andthen (select_backend flag w) (cell2 w) ?s")
    with i Inr have run: "run flag w = (r, s')" by (simp add: run_split)
    from orderlyD [OF orderly_backend_cell2 rest] obtain new where
      tr: "trace s' = trace ?s @ new" and
      en: "\<forall>c\<in>set new. \<forall>e. call_result w (filters ?s) c = Some e \<longrightarrow> last new = c \<and> r = Inl e"
      by (elim exE conjE) (rule that)
    have "c \<notin> set (trace s1)" using en1 raises_call_result [OF e] Inr by fastforce
    with c run tr have cn: "c \<in> set new" by (auto simp add: calls_def)
    with en raises_call_result [OF e] obtain e' where "last new = c" "r = Inl e'" by blast
    moreover from cn have "new \<noteq> []" by auto
    ultimately show ?thesis using run tr by (auto simp add: calls_def outcome_def)
  qed
qed

lemma raising_planned_call_fails:
  assumes "a \<in> set (plan flag w)" and "raises w a = Some e"
  shows "\<exists>e'. outcome flag w = Inl e'"
proof (cases "outcome flag w")
  case (Inr x)
  with success_runs_plan [OF Inr] assms(1) have "a \<in> set (calls flag w)" by simp
  from raising_call_ends_run [OF this assms(2)] show ?thesis by simp
qed simp

lemma later_call_reached:
  assumes eq: "A @ a # B = xs @ rest" and d: "distinct (A @ a # B)"
    and bB: "b \<in> set B" and bx: "b \<in> set xs"
  shows "a \<in> set xs \<and> last xs \<noteq> a"
proof -
  from d bB have bA: "b \<notin> set A" "b \<noteq> a" and aB: "a \<notin> set B" by auto
  from eq have "(A @ [a]) @ B = xs @ rest" by simp
  then have "\<exists>us. (A @ [a] = xs @ us \<and> us @ B = rest) \<or> ((A @ [a]) @ us = xs \<and> B = us @ rest)"
    by (simp only: append_eq_append_conv2)
  then obtain us where "(A @ [a] = xs @ us \<and> us @ B = rest) \<or> ((A @ [a]) @ us = xs \<and> B = us @ rest)" ..
  then show ?thesis
  proof
    assume "A @ [a] = xs @ us \<and> us @ B = rest"
    then have "set xs \<subseteq> set (A @ [a])" by (metis set_append Un_upper1)
    with bx bA show ?thesis by auto
  next
    assume h: "(A @ [a]) @ us = xs \<and> B = us @ rest"
    then have xs: "xs = A @ [a] @ us" by simp
    with bx bA have "b \<in> set us" by auto
    then have ne: "us \<noteq> []" by auto
    with xs have "last xs = last us" by simp
    with ne have "last xs \<in> set us" by simp
    with h have "last xs \<in> set B" by auto
    with aB xs show ?thesis by auto
  qed
qed

lemma later_blocked:
  assumes p: "plan flag w = A @ a # B" and e: "raises w a = Some e" and b: "b \<in> set B"
  shows "b \<notin> set (calls flag w)"
proof
  assume bc: "b \<in> set (calls flag w)"
  obtain rest where r: "plan flag w = calls flag w @ rest"
    by (rule run_follows_plan [of flag w])
  from p r have eq: "A @ a # B = calls flag w @ rest" by simp
  from distinct_plan [of flag w] p have d: "distinct (A @ a # B)" by simp
  from later_call_reached [OF eq d b bc]
  have "a \<in> set (calls flag w)" and "last (calls flag w) \<noteq> a" by simp_all
  with raising_call_ends_run [OF _ e] show False by blast
qed

text \<open>The TaskVine branch: the session name, and a run without \<open>USER\<close>.\<close>

lemma daskvine_name:
  assumes "NewDaskVine n \<in> set (calls flag w)"
  shows "flag \<and> (\<exists>u. environ w ''USER'' = Some u \<and> n = u @ ''-coffea-example-4'')"
proof -
  from assms have "NewDaskVine n \<in> set (plan flag w)" by (rule calls_in_plan)
  then show ?thesis
    by (auto simp add: plan_defs value_defs split: option.splits if_splits)
qed

lemma daskvine_called:
  assumes "outcome True w = Inr x"
  shows "\<exists>u. environ w ''USER'' = Some u \<and> NewDaskVine (u @ ''-coffea-example-4'') \<in> set (calls True w) \<and>
           Compute (q1_val w)
             [(''scheduler'', Scheduler (DaskVine (u @ ''-coffea-example-4''))),
              (''worker_transfers'', BoolVal True)] \<in> set (calls True w)"
proof -
  from success_runs_plan [OF assms] have "calls True w = plan True w"
    and "planned_result True w = Some x" by simp_all
  then show ?thesis
    by (auto simp add: plan_defs planned_result_def session_name_def vine_args_def
        split: option.splits)
qed

lemma no_user_fails:
  assumes "environ w ''USER'' = None"
  shows "(\<exists>e. outcome True w = Inl e) \<and> (\<forall>c\<in>set (calls True w). \<exists>m. c = Import m)"
proof -
  have "\<exists>e. outcome True w = Inl e"
  proof (cases "outcome True w")
    case (Inr x)
    from success_runs_plan [OF Inr] assms show ?thesis
      by (simp add: planned_result_def backend_args_def)
  qed simp
  moreover have "\<forall>c\<in>set (calls True w). \<exists>m. c = Import m"
  proof
    fix c assume "c \<in> set (calls True w)"
    then have "c \<in> set (plan True w)" by (rule calls_in_plan)
    with assms show "\<exists>m. c = Import m"
      by (auto simp add: plan_defs)
  qed
  ultimately show ?thesis ..
qed

lemma no_user_key_error:
  assumes "environ w ''USER'' = None"
    and "\<forall>c\<in>set early_imports. call_result w [] c = None"
    and "call_result w [coffea_filter] (Import ''ndcctools.taskvine'') = None"
  shows "outcome True w = Inl (KeyError ''USER'') \<and>
         calls True w = early_imports @ [Import ''ndcctools.taskvine'']"
  using assms
  by (simp add: outcome_def calls_def run_def notebook_def cell1_def import_lines_def
      select_backend_def start_state_def andthen_def thn_def ext_returns_under filterwarnings_def
      environ_get_def early_imports_def coffea_filter_def)

lemma no_args_only_imports:
  assumes "backend_args flag w = None"
  shows "(\<exists>e. outcome flag w = Inl e) \<and> (\<forall>c\<in>set (calls flag w). \<exists>m. c = Import m)"
proof -
  from assms have "flag" and "environ w ''USER'' = None"
    by (auto simp add: backend_args_def split: if_splits)
  with no_user_fails [of w] show ?thesis by simp
qed

text \<open>What a run that returns has computed.\<close>

lemma outcome_hist:
  assumes "outcome flag w = Inr (h, cols)"
  shows "\<exists>args. backend_args flag w = Some args \<and> h = materialize w (q1_val w) args \<and>
           cols = necessary w (q1_val w)"
  using success_runs_plan [OF assms] by (auto simp add: planned_result_def)

lemma outcome_axes:
  assumes "outcome flag w = Inr (h, cols)"
  shows "h_axes h = [met_axis]"
  using outcome_hist [OF assms] by (auto simp add: materialize_def q1_val_def)

lemma quiet_outcome:
  "outcome True quiet_world =
     Inr (\<lparr>h_axes = [met_axis], h_storage = Some Double, h_values = replicate 102 0\<rparr>,
          [(''from-uproot'', [''MET_pt''])])"
  by (simp add: run_defs world_defs materialize_def)

text \<open>The notebook as committed selects TaskVine.\<close>

lemma notebook_as_committed: "run use_taskvine w = run True w"
  by (simp add: use_taskvine_def)

text \<open>Both backends are handed the same lazy histogram; only the keyword arguments of
  \<open>compute\<close> differ.\<close>

lemma backends_submit_same_histogram:
  assumes "Compute q a \<in> set (calls True w)" and "Compute q' a' \<in> set (calls False w)"
  shows "q = q' \<and> a' = [] \<and>
     (\<exists>u. environ w ''USER'' = Some u \<and>
          a = [(''scheduler'', Scheduler (DaskVine (u @ ''-coffea-example-4''))),
               (''worker_transfers'', BoolVal True)])"
proof -
  from assms have "Compute q a \<in> set (plan True w)" and "Compute q' a' \<in> set (plan False w)"
    by (simp_all add: calls_in_plan)
  then show ?thesis
    by (auto simp add: plan_defs session_name_def vine_args_def split: option.splits)
qed

section \<open>The claims\<close>

subsection \<open>C1: the binning of the histogram\<close>

lemma compute_axes:
  assumes "Compute q args \<in> set (calls flag w)"
  shows "lh_axes q = [met_axis]"
proof -
  from assms have "Compute q args \<in> set (plan flag w)" by (rule calls_in_plan)
  then show ?thesis
    by (auto simp add: plan_defs value_defs split: option.splits if_splits)
qed

lemma plot_axes:
  assumes "Plot1d h \<in> set (calls flag w)"
  shows "h_axes h = [met_axis]"
proof -
  from assms have "Plot1d h \<in> set (plan flag w)" by (rule calls_in_plan)
  then show ?thesis
    by (auto simp add: plan_defs value_defs split: option.splits if_splits)
qed

lemma met_axis_binning:
  "ax_bins met_axis = 100 \<and> ax_start met_axis = 0 \<and> ax_stop met_axis = 200 \<and> ax_name met_axis = ''met''"
  by (simp add: met_axis_def)

text \<open>
  C1. Whatever the backend, the environment and the input data, the histogram the
  notebook produces has exactly one axis, the regular axis \<open>Reg(100, 0, 200, name="met")\<close>:
  100 bins, lower edge 0, upper edge 200 (the library's regular axis covers the
  half-open range from the lower to the upper edge), named \<open>met\<close>. This holds for the
  histogram a run returns, for every histogram handed to \<open>plot1d\<close> and for every lazy
  histogram handed to \<open>compute\<close>.
\<close>

theorem histogram_binning:
  "(\<forall>h cols. outcome flag w = Inr (h, cols) \<longrightarrow>
      (\<exists>ax. h_axes h = [ax] \<and> ax_bins ax = 100 \<and> ax_start ax = 0 \<and> ax_stop ax = 200 \<and>
            ax_name ax = ''met'')) \<and>
   (\<forall>h. Plot1d h \<in> set (calls flag w) \<longrightarrow>
      (\<exists>ax. h_axes h = [ax] \<and> ax_bins ax = 100 \<and> ax_start ax = 0 \<and> ax_stop ax = 200 \<and>
            ax_name ax = ''met'')) \<and>
   (\<forall>q args. Compute q args \<in> set (calls flag w) \<longrightarrow>
      (\<exists>ax. lh_axes q = [ax] \<and> ax_bins ax = 100 \<and> ax_start ax = 0 \<and> ax_stop ax = 200 \<and>
            ax_name ax = ''met''))"
  using outcome_axes [of flag w] plot_axes [of _ flag w] compute_axes [of _ _ flag w] met_axis_binning
  by (intro conjI allI impI) (rule exI [of _ met_axis], simp)+

theorem histogram_binning_witness:
  "outcome True quiet_world =
     Inr (\<lparr>h_axes = [met_axis], h_storage = Some Double, h_values = replicate 102 0\<rparr>,
          [(''from-uproot'', [''MET_pt''])]) \<and>
   (\<exists>ax. [met_axis] = [ax] \<and> ax_bins ax = 100 \<and> ax_start ax = 0 \<and> ax_stop ax = 200 \<and>
         ax_name ax = ''met'')"
proof -
  from histogram_binning [of True quiet_world] quiet_outcome
  have "\<exists>ax. h_axes \<lparr>h_axes = [met_axis], h_storage = Some Double,
          h_values = replicate 102 (0::nat)\<rparr> = [ax] \<and>
          ax_bins ax = 100 \<and> ax_start ax = 0 \<and> ax_stop ax = 200 \<and> ax_name ax = ''met''"
    by blast
  with quiet_outcome show ?thesis by simp
qed

subsection \<open>C4: a data file that cannot be read\<close>

lemma reader_raises:
  assumes "raises w (FromRoot [(data_file w, ''/Events'')] [(''dataset'', ''SingleMu'')]) = Some e \<or>
           raises w (EventsOf [(data_file w, ''/Events'')] [(''dataset'', ''SingleMu'')]) = Some e"
  shows "(\<exists>e'. outcome flag w = Inl e') \<and>
         (\<forall>c\<in>set (calls flag w). (\<forall>ax. c \<noteq> Reg ax) \<and> (\<forall>q a. c \<noteq> Compute q a) \<and> (\<forall>h. c \<noteq> Plot1d h))"
proof (cases "backend_args flag w")
  case None
  from no_args_only_imports [OF None] show ?thesis by auto
next
  case (Some args)
  note p = plan_with_args [OF Some]
  let ?fr = "FromRoot [(data_file w, ''/Events'')] [(''dataset'', ''SingleMu'')] :: 'a call"
  let ?ev = "EventsOf [(data_file w, ''/Events'')] [(''dataset'', ''SingleMu'')] :: 'a call"
  have inplan: "?fr \<in> set (plan flag w)" "?ev \<in> set (plan flag w)"
    by (simp_all add: p(1))
  from assms inplan have fails: "\<exists>e'. outcome flag w = Inl e'"
    by (auto dest: raising_planned_call_fails)
  have "\<forall>c\<in>set (calls flag w). (\<forall>ax. c \<noteq> Reg ax) \<and> (\<forall>q a. c \<noteq> Compute q a) \<and> (\<forall>h. c \<noteq> Plot1d h)"
  proof (rule ballI, rule ccontr)
    fix c
    assume c: "c \<in> set (calls flag w)"
      and "\<not> ((\<forall>ax. c \<noteq> Reg ax) \<and> (\<forall>q a. c \<noteq> Compute q a) \<and> (\<forall>h. c \<noteq> Plot1d h))"
    then have kind: "(\<exists>ax. c = Reg ax) \<or> (\<exists>q a. c = Compute q a) \<or> (\<exists>h. c = Plot1d h)" by blast
    from hist_calls_in_build [OF calls_in_plan [OF c] kind] Some
    have cb: "c \<in> set (build_plan w @ finish_plan w args)" by simp
    from assms show False
    proof
      assume "raises w ?fr = Some e"
      from later_blocked [OF p(1) this, of c] cb c show False by simp
    next
      assume "raises w ?ev = Some e"
      from later_blocked [OF p(2) this, of c] cb c show False by simp
    qed
  qed
  with fails show ?thesis ..
qed

lemma compute_raises:
  assumes "\<forall>q a. raises w (Compute q a) = Some e"
  shows "(\<exists>e'. outcome flag w = Inl e') \<and> (\<forall>h. Plot1d h \<notin> set (calls flag w))"
proof (cases "backend_args flag w")
  case None
  from no_args_only_imports [OF None] show ?thesis by auto
next
  case (Some args)
  note p = plan_with_args(3) [OF Some]
  from assms have e: "raises w (Compute (q1_val w) args) = Some e" by simp
  have "Compute (q1_val w) args \<in> set (plan flag w)" by (simp add: p)
  from raising_planned_call_fails [OF this e] have fails: "\<exists>e'. outcome flag w = Inl e'" .
  have "\<forall>h. Plot1d h \<notin> set (calls flag w)"
  proof (rule allI, rule notI)
    fix h
    assume c: "Plot1d h \<in> set (calls flag w)"
    from calls_in_plan [OF c] have "Plot1d h = Plot1d (materialize w (q1_val w) args)"
      by (auto simp add: p early_imports_def backend_plan_def load_plan_def build_plan_def
          split: option.splits if_splits)
    with later_blocked [OF p e, of "Plot1d h"] c show False by simp
  qed
  with fails show ?thesis ..
qed

text \<open>
  C4. The notebook catches nothing. If the event reader raises for the input file
  (\<open>from_root\<close> or \<open>events\<close>, as it does for a file that is absent), the run ends in an
  exception and no histogram is declared, computed or plotted. If the reader defers
  opening the file and it is \<open>compute\<close> that raises, the run ends in an exception as well
  and nothing is plotted. Either way no histogram, partial or empty, comes out of the
  run. That the library raises for an absent file is its contract, not code of the
  notebook; it is the hypothesis.
\<close>

theorem unreadable_file_run_fails:
  "(raises w (FromRoot [(data_file w, ''/Events'')] [(''dataset'', ''SingleMu'')]) = Some e \<or>
    raises w (EventsOf [(data_file w, ''/Events'')] [(''dataset'', ''SingleMu'')]) = Some e \<longrightarrow>
      (\<exists>e'. outcome flag w = Inl e') \<and>
      (\<forall>c\<in>set (calls flag w).
         (\<forall>ax. c \<noteq> Reg ax) \<and> (\<forall>q a. c \<noteq> Compute q a) \<and> (\<forall>h. c \<noteq> Plot1d h))) \<and>
   ((\<forall>q a. raises w (Compute q a) = Some e) \<longrightarrow>
      (\<exists>e'. outcome flag w = Inl e') \<and> (\<forall>h. Plot1d h \<notin> set (calls flag w)))"
  using reader_raises [of w e flag] compute_raises [of w e flag] by blast

theorem unreadable_file_run_fails_witness:
  "raises absent_file_world
     (FromRoot [(data_file absent_file_world, ''/Events'')] [(''dataset'', ''SingleMu'')]) =
     Some (LibraryError ''FileNotFoundError'') \<and>
   (\<exists>e'. outcome True absent_file_world = Inl e') \<and>
   Plot1d \<lparr>h_axes = [met_axis], h_storage = Some Double, h_values = replicate 102 0\<rparr>
     \<notin> set (calls True absent_file_world) \<and>
   (\<exists>e'. outcome True lazy_absent_file_world = Inl e') \<and>
   Plot1d \<lparr>h_axes = [met_axis], h_storage = Some Double, h_values = replicate 102 0\<rparr>
     \<notin> set (calls True lazy_absent_file_world)"
proof -
  let ?e = "LibraryError ''FileNotFoundError''"
  have r: "raises absent_file_world
     (FromRoot [(data_file absent_file_world, ''/Events'')] [(''dataset'', ''SingleMu'')]) = Some ?e"
    by (simp add: world_defs)
  have l: "\<forall>q a. raises lazy_absent_file_world (Compute q a) = Some ?e"
    by (simp add: world_defs)
  from r unreadable_file_run_fails [of absent_file_world ?e True]
  have "(\<exists>e'. outcome True absent_file_world = Inl e') \<and>
        (\<forall>c\<in>set (calls True absent_file_world). \<forall>h. c \<noteq> Plot1d h)"
    by blast
  moreover from l unreadable_file_run_fails [of lazy_absent_file_world ?e True]
  have "(\<exists>e'. outcome True lazy_absent_file_world = Inl e') \<and>
        (\<forall>h. Plot1d h \<notin> set (calls True lazy_absent_file_world))"
    by blast
  ultimately show ?thesis using r by blast
qed

subsection \<open>C5: warnings of the event-reading library\<close>

text \<open>
  C5, as amended. The filter is installed by line 18, after the imports of lines 10 to
  17. From then on, a library call that issues a warning whose module matches
  \<open>coffea.*\<close> does not return: a warning of that call is raised as an exception, the
  exception is the outcome of the run, and the call is the last one the run makes (the
  notebook has no recovery or retry).
\<close>

theorem coffea_warning_aborts:
  assumes c: "c \<in> set (calls flag w)"
    and late: "c \<notin> set early_imports"
    and wn: "wn \<in> set (warns w c)" and m: "re_match w ''coffea.*'' (w_module wn)"
  shows "\<exists>x. x \<in> set (warns w c) \<and> outcome flag w = Inl (WarningError x) \<and> last (calls flag w) = c"
proof -
  obtain r1 s1 where i: "import_lines w start_state = (r1, s1)" by (cases "import_lines w start_state")
  have t1: "set (trace s1) \<subseteq> set early_imports"
    using import_lines_trace [of w start_state] i by (simp add: start_state_def)
  show ?thesis
  proof (cases r1)
    case (Inl e)
    with i have "calls flag w = trace s1" by (simp add: calls_def run_split)
    with c late t1 show ?thesis by auto
  next
    case (Inr u)
    let ?s = "s1\<lparr>filters := coffea_filter # filters s1\<rparr>"
    obtain r s' where rest: "andthen (select_backend flag w) (cell2 w) ?s = (r, s')"
      by (cases "andthen (select_backend flag w) (cell2 w) ?s")
    with i Inr have run: "run flag w = (r, s')" by (simp add: run_split)
    from orderlyD [OF orderly_backend_cell2 rest] obtain new where
      tr: "trace s' = trace ?s @ new" and
      en: "\<forall>c\<in>set new. \<forall>e. call_result w (filters ?s) c = Some e \<longrightarrow> last new = c \<and> r = Inl e"
      by (elim exE conjE) (rule that)
    from c run tr have "c \<in> set (trace s1) \<or> c \<in> set new" by (auto simp add: calls_def)
    with late t1 have cn: "c \<in> set new" by auto
    from matching_escalates [OF wn m, of "filters s1"] obtain x where
      x: "x \<in> set (warns w c)" and cr: "call_result w (coffea_filter # filters s1) c = Some (WarningError x)"
      by blast
    from en cn cr have "last new = c" "r = Inl (WarningError x)" by auto
    moreover from cn have "new \<noteq> []" by auto
    ultimately show ?thesis using x run tr by (auto simp add: calls_def outcome_def)
  qed
qed

theorem coffea_warning_aborts_witness:
  "outcome True reader_warning_world = Inl (WarningError coffea_warning) \<and>
   last (calls True reader_warning_world) =
     FromRoot [([''file:///home/alice/data/small_data.root''], ''/Events'')] [(''dataset'', ''SingleMu'')]"
proof -
  let ?c = "FromRoot [([''file:///home/alice/data/small_data.root''], ''/Events'')]
              [(''dataset'', ''SingleMu'')] :: nat call"
  have c: "?c \<in> set (calls True reader_warning_world)"
    by (simp add: run_defs world_defs data_file_def data_url_def)
  have late: "?c \<notin> set early_imports" by (simp add: early_imports_def)
  have wn: "coffea_warning \<in> set (warns reader_warning_world ?c)"
    by (simp add: world_defs)
  have m: "re_match reader_warning_world ''coffea.*'' (w_module coffea_warning)"
    by (simp add: world_defs)
  from coffea_warning_aborts [OF c late wn m] obtain x where
    "x \<in> set (warns reader_warning_world ?c)"
    and "outcome True reader_warning_world = Inl (WarningError x)"
    and "last (calls True reader_warning_world) = ?c" by blast
  then show ?thesis by (simp add: world_defs)
qed

text \<open>
  The claim as stated covers the whole run. It fails for a warning that the library
  issues while it is imported (line 11), before the filter exists: under the
  interpreter's default filters the warning is not raised and the run goes on to plot
  the histogram.
\<close>

theorem import_warning_counterexample:
  "Import ''coffea.nanoevents'' \<in> set (calls True import_warning_world) \<and>
   coffea_warning \<in> set (warns import_warning_world (Import ''coffea.nanoevents'')) \<and>
   re_match import_warning_world ''coffea.*'' (w_module coffea_warning) \<and>
   outcome True import_warning_world =
     Inr (\<lparr>h_axes = [met_axis], h_storage = Some Double, h_values = replicate 102 0\<rparr>,
          [(''from-uproot'', [''MET_pt''])])"
  by (simp add: run_defs world_defs materialize_def)

subsection \<open>C6: what the event reader is given\<close>

lemma from_root_args:
  assumes "FromRoot fs md \<in> set (calls flag w)"
  shows "fs = [([''file://'' @ abspath w ''data/small_data.root''], ''/Events'')] \<and>
      md = [(''dataset'', ''SingleMu'')]"
proof -
  from assms have "FromRoot fs md \<in> set (plan flag w)" by (rule calls_in_plan)
  then show ?thesis
    by (auto simp add: plan_defs value_defs split: option.splits if_splits)
qed

lemma from_root_called:
  assumes "outcome flag w = Inr x"
  shows "FromRoot [([''file://'' @ abspath w ''data/small_data.root''], ''/Events'')]
        [(''dataset'', ''SingleMu'')] \<in> set (calls flag w)"
proof -
  from assms have "calls flag w = plan flag w" and "planned_result flag w = Some x"
    using success_runs_plan by blast+
  then show ?thesis
    by (auto simp add: plan_defs planned_result_def value_defs split: option.splits if_splits)
qed

text \<open>
  C6. Whatever the backend and the world, every call of the event reader is given the
  same input: a dictionary with one entry, whose key is the one-element tuple holding
  \<open>"file://"\<close> followed by the absolute path of \<open>data/small_data.root\<close> and whose value
  is the tree name \<open>"/Events"\<close>, together with the metadata \<open>{"dataset": "SingleMu"}\<close>; and
  a run that returns has made that call.
\<close>

theorem reader_input:
  "(\<forall>fs md. FromRoot fs md \<in> set (calls flag w) \<longrightarrow>
      fs = [([''file://'' @ abspath w ''data/small_data.root''], ''/Events'')] \<and>
      md = [(''dataset'', ''SingleMu'')]) \<and>
   (\<forall>x. outcome flag w = Inr x \<longrightarrow>
      FromRoot [([''file://'' @ abspath w ''data/small_data.root''], ''/Events'')]
        [(''dataset'', ''SingleMu'')] \<in> set (calls flag w))"
  using from_root_args [of _ _ flag w] from_root_called [of flag w] by blast

theorem reader_input_witness:
  "outcome True quiet_world =
     Inr (\<lparr>h_axes = [met_axis], h_storage = Some Double, h_values = replicate 102 0\<rparr>,
          [(''from-uproot'', [''MET_pt''])]) \<and>
   FromRoot [([''file:///home/alice/data/small_data.root''], ''/Events'')]
     [(''dataset'', ''SingleMu'')] \<in> set (calls True quiet_world)"
proof -
  have ok: "outcome True quiet_world =
     Inr (\<lparr>h_axes = [met_axis], h_storage = Some Double, h_values = replicate 102 0\<rparr>,
          [(''from-uproot'', [''MET_pt''])])"
    by (simp add: run_defs world_defs materialize_def)
  from reader_input [of True quiet_world] ok
  have "FromRoot [([''file://'' @ abspath quiet_world ''data/small_data.root''], ''/Events'')]
        [(''dataset'', ''SingleMu'')] \<in> set (calls True quiet_world)"
    by blast
  with ok show ?thesis by (simp add: quiet_world_def)
qed

subsection \<open>C7: the axis label, and where the histogram goes\<close>

lemma reg_label:
  assumes "Reg ax \<in> set (calls flag w)"
  shows "ax_label ax = ''$E_{T}^{miss}$ [GeV]''"
proof -
  from assms have "Reg ax \<in> set (plan flag w)" by (rule calls_in_plan)
  then show ?thesis
    by (auto simp add: plan_defs value_defs met_axis_def split: option.splits if_splits)
qed

lemma outcome_label:
  assumes "outcome flag w = Inr (h, cols)"
  shows "map ax_label (h_axes h) = [''$E_{T}^{miss}$ [GeV]'']"
  using outcome_axes [OF assms] by (simp add: met_axis_def)

lemma outcome_only_plotted:
  assumes "outcome flag w = Inr (h, cols)"
  shows "\<exists>pre q args. calls flag w = pre @ [Compute q args, Plot1d h, NecessaryColumns q] \<and>
           (\<forall>h'. Plot1d h' \<notin> set pre)"
proof -
  from outcome_hist [OF assms] obtain args where
    a: "backend_args flag w = Some args" and h: "h = materialize w (q1_val w) args" by blast
  let ?pre = "early_imports @ backend_plan flag w @ load_plan w @ build_plan w"
  from success_runs_plan [OF assms] a h
  have "calls flag w = ?pre @ [Compute (q1_val w) args, Plot1d h, NecessaryColumns (q1_val w)]"
    by (simp add: plan_def cell2_plan_def finish_plan_def)
  moreover have "\<forall>h'. Plot1d h' \<notin> set ?pre"
    by (auto simp add: early_imports_def backend_plan_def load_plan_def build_plan_def
        split: option.splits)
  ultimately show ?thesis by blast
qed

text \<open>
  C7, as amended. The label of the axis is the string \<open>$E_{T}^{miss}$ [GeV]\<close>, with
  braces around the subscript. A run that returns has handed the computed histogram to
  \<open>plot1d\<close> and to nothing else: after \<open>compute\<close> the only calls are \<open>plot1d\<close> on the
  histogram and \<open>necessary_columns\<close> on the lazy histogram, and no call before it plots
  anything. The notebook asks for no file to be written.
\<close>

theorem axis_label_and_output:
  "(\<forall>ax. Reg ax \<in> set (calls flag w) \<longrightarrow> ax_label ax = ''$E_{T}^{miss}$ [GeV]'') \<and>
   (\<forall>h cols. outcome flag w = Inr (h, cols) \<longrightarrow>
      map ax_label (h_axes h) = [''$E_{T}^{miss}$ [GeV]''] \<and>
      (\<exists>pre q args. calls flag w = pre @ [Compute q args, Plot1d h, NecessaryColumns q] \<and>
         (\<forall>h'. Plot1d h' \<notin> set pre)))"
  using reg_label [of _ flag w] outcome_label [of flag w] outcome_only_plotted [of flag w]
  by blast

theorem axis_label_and_output_witness:
  "outcome True quiet_world =
     Inr (\<lparr>h_axes = [met_axis], h_storage = Some Double, h_values = replicate 102 0\<rparr>,
          [(''from-uproot'', [''MET_pt''])]) \<and>
   map ax_label [met_axis] = [''$E_{T}^{miss}$ [GeV]'']"
proof -
  from axis_label_and_output [of True quiet_world] quiet_outcome
  have "map ax_label (h_axes \<lparr>h_axes = [met_axis], h_storage = Some Double,
          h_values = replicate 102 (0::nat)\<rparr>) = [''$E_{T}^{miss}$ [GeV]'']"
    by blast
  with quiet_outcome show ?thesis by simp
qed

text \<open>The label the claim states, \<open>$E_T^{miss}$ [GeV]\<close>, is not the label of the code.\<close>

theorem axis_label_counterexample:
  "outcome True quiet_world =
     Inr (\<lparr>h_axes = [met_axis], h_storage = Some Double, h_values = replicate 102 0\<rparr>,
          [(''from-uproot'', [''MET_pt''])]) \<and>
   ax_label met_axis \<noteq> ''$E_T^{miss}$ [GeV]''"
  using quiet_outcome by (simp add: met_axis_def)

subsection \<open>C10: the name of the TaskVine session\<close>

text \<open>
  C10. A TaskVine manager is created only when the TaskVine backend is selected, and
  its name is the value of \<open>USER\<close> followed by \<open>-coffea-example-4\<close>; a run with that
  backend that returns has created it. If \<open>USER\<close> is not set, a run with that backend
  ends in an exception having made no call but imports: no file is read and no
  histogram is declared. When the imports return (they may issue warnings, as long as
  none is raised: the six of lines 10 to 17 under the interpreter's own filters, the one
  of line 24 with the filter of line 18 in front), the exception is \<open>KeyError('USER')\<close>,
  raised right after the import of line 24.
\<close>

theorem taskvine_session_name:
  "(\<forall>n. NewDaskVine n \<in> set (calls flag w) \<longrightarrow>
      flag \<and> (\<exists>u. environ w ''USER'' = Some u \<and> n = u @ ''-coffea-example-4'')) \<and>
   (\<forall>x. outcome True w = Inr x \<longrightarrow>
      (\<exists>u. environ w ''USER'' = Some u \<and>
           NewDaskVine (u @ ''-coffea-example-4'') \<in> set (calls True w))) \<and>
   (environ w ''USER'' = None \<longrightarrow>
      (\<exists>e. outcome True w = Inl e) \<and> (\<forall>c\<in>set (calls True w). \<exists>m. c = Import m)) \<and>
   (environ w ''USER'' = None \<and>
    (\<forall>c\<in>set early_imports. call_result w [] c = None) \<and>
    call_result w [coffea_filter] (Import ''ndcctools.taskvine'') = None \<longrightarrow>
      outcome True w = Inl (KeyError ''USER'') \<and>
      calls True w = early_imports @ [Import ''ndcctools.taskvine''])"
  using daskvine_name [of _ flag w] daskvine_called [of w] no_user_fails [of w]
    no_user_key_error [of w]
  by blast

theorem taskvine_session_name_witness:
  "outcome True no_user_world = Inl (KeyError ''USER'') \<and>
   coffea_warning \<in> set (warns import_warning_no_user_world (Import ''coffea.nanoevents'')) \<and>
   outcome True import_warning_no_user_world = Inl (KeyError ''USER'') \<and>
   NewDaskVine ''alice-coffea-example-4'' \<in> set (calls True quiet_world)"
proof -
  have "environ no_user_world ''USER'' = None \<and>
        (\<forall>c\<in>set early_imports. call_result no_user_world [] c = None) \<and>
        call_result no_user_world [coffea_filter] (Import ''ndcctools.taskvine'') = None"
    by (simp add: world_defs early_imports_def call_result_def)
  with taskvine_session_name [of True no_user_world]
  have a: "outcome True no_user_world = Inl (KeyError ''USER'')" by blast
  have "environ import_warning_no_user_world ''USER'' = None \<and>
        (\<forall>c\<in>set early_imports. call_result import_warning_no_user_world [] c = None) \<and>
        call_result import_warning_no_user_world [coffea_filter] (Import ''ndcctools.taskvine'') = None"
    by (simp add: import_warning_no_user_world_def world_defs early_imports_def call_result_def)
  with taskvine_session_name [of True import_warning_no_user_world]
  have b: "outcome True import_warning_no_user_world = Inl (KeyError ''USER'')" by blast
  have c: "coffea_warning \<in> set (warns import_warning_no_user_world (Import ''coffea.nanoevents''))"
    by (simp add: import_warning_no_user_world_def world_defs)
  from taskvine_session_name [of True quiet_world] quiet_outcome
  obtain u where "environ quiet_world ''USER'' = Some u"
    and "NewDaskVine (u @ ''-coffea-example-4'') \<in> set (calls True quiet_world)" by blast
  then have "NewDaskVine ''alice-coffea-example-4'' \<in> set (calls True quiet_world)"
    by (auto simp add: quiet_world_def)
  with a b c show ?thesis by simp
qed

end
